theory Spec2Isabelle
  imports Main "HOL-Library.Word"
begin

section \<open>Strings of the Go program\<close>

text \<open>
  A Go string is a sequence of bytes; it is modelled as a \<open>string\<close> (a list of 8-bit
  characters). The helpers below are the functions of the Go standard library that
  \<open>main.go\<close> calls on strings. \<open>ToLower\<close> and \<open>strings_Title\<close> change ASCII letters and
  keep every other byte; Go maps the runes outside ASCII through the Unicode tables,
  which matters neither for the comparison with \<open>true\<close> (no rune outside ASCII has one
  of its letters as lower case) nor for the title of a valid type. \<open>Atoi\<close> is
  \<open>strconv.Atoi\<close> for the 64-bit \<open>int\<close> of the amd64 build that \<open>build.bat\<close> sets.
\<close>

definition HasPrefix :: "string \<Rightarrow> string \<Rightarrow> bool" where
  \<comment> \<open>\<open>strings.HasPrefix(s, prefix)\<close>\<close>
  "HasPrefix s p = (take (length p) s = p)"

definition TrimPrefix :: "string \<Rightarrow> string \<Rightarrow> string" where
  \<comment> \<open>\<open>strings.TrimPrefix(s, prefix)\<close>\<close>
  "TrimPrefix s p = (if HasPrefix s p then drop (length p) s else s)"

definition lower_byte :: "char \<Rightarrow> char" where
  \<comment> \<open>an ASCII capital letter becomes the small one, any other byte stays\<close>
  "lower_byte c =
     (if 65 \<le> (of_char c :: nat) \<and> (of_char c :: nat) \<le> 90
      then char_of ((of_char c :: nat) + 32) else c)"

definition ToLower :: "string \<Rightarrow> string" where
  \<comment> \<open>\<open>strings.ToLower(s)\<close> on the bytes of \<open>s\<close>\<close>
  "ToLower s = map lower_byte s"

definition parseBool :: "string \<Rightarrow> bool" where
  "parseBool s = (ToLower s = ''true'')"

definition is_digit :: "char \<Rightarrow> bool" where
  "is_digit c = (48 \<le> (of_char c :: nat) \<and> (of_char c :: nat) \<le> 57)"

fun digits_value :: "int \<Rightarrow> string \<Rightarrow> int option" where
  "digits_value n [] = Some n"
| "digits_value n (c # cs) =
     (if is_digit c then digits_value (n * 10 + (int (of_char c) - 48)) cs else None)"

definition Atoi :: "string \<Rightarrow> int option" where
  \<comment> \<open>\<open>strconv.Atoi(s)\<close> for a 64-bit \<open>int\<close>: \<open>Some\<close> the value when \<open>err == nil\<close>,
      \<open>None\<close> on a syntax error or a value out of range\<close>
  "Atoi s =
     (case s of
        [] \<Rightarrow> None
      | c # cs \<Rightarrow>
          (let neg = (c = CHR ''-'');
               ds = (if c = CHR ''-'' \<or> c = CHR ''+'' then cs else s)
           in if ds = [] then None
              else (case digits_value 0 ds of
                      None \<Rightarrow> None
                    | Some n \<Rightarrow>
                        (let v = (if neg then - n else n)
                         in if - (2 ^ 63) \<le> v \<and> v < 2 ^ 63 then Some v else None))))"

section \<open>The argument parser of \<open>main\<close>\<close>

text \<open>
  The variables of \<open>main\<close> that the loop assigns are the fields of \<open>parse_state\<close>. The
  index \<open>i\<close> starts at 0 and only grows, so it is a natural number; every \<open>args[i]\<close>
  goes through \<open>index\<close>, which gives the panic of Go when the index is out of range.
  A flag that takes a value is written in the source as \<open>if arg == flag\<close> around
  \<open>if i+1 < len(args)\<close> with the \<open>continue\<close> inside; when the inner test fails the
  control falls to the tests below, which is what the conjunction of both tests in one
  branch of the chain does here.
\<close>

record parse_state =
  notificationType :: string
  timeout :: int
  autoClose :: bool
  customTitle :: string
  message :: string

definition defaults :: parse_state where
  "defaults = \<lparr>notificationType = ''info'', timeout = 5, autoClose = True,
               customTitle = '''', message = ''''\<rparr>"

datatype panic = IndexOutOfRange

definition index :: "string list \<Rightarrow> nat \<Rightarrow> panic + string" where
  \<comment> \<open>\<open>args[i]\<close>: Go panics when the index is not below \<open>len(args)\<close>\<close>
  "index args i = (if i < length args then Inr (args ! i) else Inl IndexOutOfRange)"

datatype step_result = ExitHelp | Continue nat parse_state

definition parse_step :: "string list \<Rightarrow> nat \<Rightarrow> parse_state \<Rightarrow> panic + step_result" where
  \<comment> \<open>one run of the body of the \<open>for i < len(args)\<close> loop: the new \<open>i\<close> and variables,
      or the exit of \<open>--help\<close>\<close>
  "parse_step args i st =
     (case index args i of
        Inl e \<Rightarrow> Inl e
      | Inr arg \<Rightarrow>
          if arg = ''--help'' \<or> arg = ''-help'' \<or> arg = ''-h'' then Inr ExitHelp
          else if HasPrefix arg ''--type='' then
            Inr (Continue (i + 1) (st\<lparr>notificationType := TrimPrefix arg ''--type=''\<rparr>))
          else if (arg = ''--type'' \<or> arg = ''-type'') \<and> i + 1 < length args then
            (case index args (i + 1) of
               Inl e \<Rightarrow> Inl e
             | Inr v \<Rightarrow> Inr (Continue (i + 2) (st\<lparr>notificationType := v\<rparr>)))
          else if HasPrefix arg ''--title='' then
            Inr (Continue (i + 1) (st\<lparr>customTitle := TrimPrefix arg ''--title=''\<rparr>))
          else if (arg = ''--title'' \<or> arg = ''-title'') \<and> i + 1 < length args then
            (case index args (i + 1) of
               Inl e \<Rightarrow> Inl e
             | Inr v \<Rightarrow> Inr (Continue (i + 2) (st\<lparr>customTitle := v\<rparr>)))
          else if HasPrefix arg ''--timeout='' then
            Inr (Continue (i + 1)
                   (case Atoi (TrimPrefix arg ''--timeout='') of
                      Some val \<Rightarrow> st\<lparr>timeout := val\<rparr>
                    | None \<Rightarrow> st))
          else if (arg = ''--timeout'' \<or> arg = ''-timeout'') \<and> i + 1 < length args then
            (case index args (i + 1) of
               Inl e \<Rightarrow> Inl e
             | Inr v \<Rightarrow>
                 Inr (Continue (i + 2)
                        (case Atoi v of Some val \<Rightarrow> st\<lparr>timeout := val\<rparr> | None \<Rightarrow> st)))
          else if HasPrefix arg ''--autoclose='' then
            Inr (Continue (i + 1) (st\<lparr>autoClose := parseBool (TrimPrefix arg ''--autoclose='')\<rparr>))
          else if (arg = ''--autoclose'' \<or> arg = ''-autoclose'') \<and> i + 1 < length args then
            (case index args (i + 1) of
               Inl e \<Rightarrow> Inl e
             | Inr v \<Rightarrow> Inr (Continue (i + 2) (st\<lparr>autoClose := parseBool v\<rparr>)))
          else if \<not> HasPrefix arg ''-'' then
            Inr (Continue (i + 1) (st\<lparr>message := arg\<rparr>))
          else Inr (Continue (i + 1) st))"

datatype parse_result = HelpRequested | Parsed parse_state

function parse_loop :: "string list \<Rightarrow> nat \<Rightarrow> parse_state \<Rightarrow> panic + parse_result" where
  "parse_loop args i st =
     (if i < length args then
        (case parse_step args i st of
           Inl e \<Rightarrow> Inl e
         | Inr ExitHelp \<Rightarrow> Inr HelpRequested
         | Inr (Continue i' st') \<Rightarrow> parse_loop args i' st')
      else Inr (Parsed st))"
  by pat_completeness auto
termination
  apply (relation "measure (\<lambda>(args, i, st). length args - i)")
   apply simp
  apply (auto simp: parse_step_def index_def split: if_splits sum.splits)
  done

declare parse_loop.simps [simp del]

definition parse_args :: "string list \<Rightarrow> panic + parse_result" where
  "parse_args args = parse_loop args 0 defaults"

subsection \<open>What the specification calls the positional tokens\<close>

definition takes_value :: "string \<Rightarrow> bool" where
  \<comment> \<open>the flags that take the next token as their value\<close>
  "takes_value a = (a \<in> {''--type'', ''-type'', ''--title'', ''-title'',
                          ''--timeout'', ''-timeout'', ''--autoclose'', ''-autoclose''})"

fun unconsumed :: "string list \<Rightarrow> string list" where
  \<comment> \<open>the tokens of the vector that are not the value of a flag before them\<close>
  "unconsumed (a # v # rest) =
     (if takes_value a then a # unconsumed rest else a # unconsumed (v # rest))"
| "unconsumed args = args"

definition positionals :: "string list \<Rightarrow> string list" where
  \<comment> \<open>the tokens that do not start with a dash and are not consumed as flag values\<close>
  "positionals args = filter (\<lambda>a. \<not> HasPrefix a ''-'') (unconsumed args)"

definition next_index :: "string list \<Rightarrow> nat \<Rightarrow> nat" where
  "next_index args i =
     (if takes_value (args ! i) \<and> i + 1 < length args then i + 2 else i + 1)"


fun flag_values :: "string \<Rightarrow> string list \<Rightarrow> string list" where
  \<comment> \<open>the strings supplied as the value of the flag \<open>f\<close>, in the order of the vector:
      the token after \<open>--f\<close> or \<open>-f\<close>, and what follows the equals sign of \<open>--f=\<close>;
      a token that is itself the value of a flag is no flag\<close>
  "flag_values f (a # v # rest) =
     (if a = ''--'' @ f \<or> a = ''-'' @ f then v # flag_values f rest
      else if takes_value a then flag_values f rest
      else if HasPrefix a (''--'' @ f @ ''='') then
        drop (length (''--'' @ f @ ''='')) a # flag_values f (v # rest)
      else flag_values f (v # rest))"
| "flag_values f [a] =
     (if HasPrefix a (''--'' @ f @ ''='') then [drop (length (''--'' @ f @ ''='')) a] else [])"
| "flag_values f [] = []"


text \<open>
  What the specification calls an integer: an optional sign and one or more decimal
  digits, read in positional notation, within the range of a 64-bit integer.
\<close>

definition decimal_digit :: "char \<rightharpoonup> int" where
  "decimal_digit = map_of (zip ''0123456789'' [0, 1, 2, 3, 4, 5, 6, 7, 8, 9])"

fun decimal_value :: "string \<Rightarrow> int option" where
  "decimal_value [] = Some 0"
| "decimal_value (c # cs) =
     (case (decimal_digit c, decimal_value cs) of
        (Some d, Some r) \<Rightarrow> Some (d * 10 ^ length cs + r)
      | _ \<Rightarrow> None)"

fun split_sign :: "string \<Rightarrow> bool \<times> string" where
  "split_sign [] = (False, [])"
| "split_sign (c # cs) =
     (if c = CHR ''-'' then (True, cs) else if c = CHR ''+'' then (False, cs) else (False, c # cs))"

definition integer_text :: "string \<Rightarrow> int option" where
  "integer_text s =
     (case split_sign s of
        (neg, ds) \<Rightarrow>
          (if ds = [] then None
           else (case decimal_value ds of
                   None \<Rightarrow> None
                 | Some m \<Rightarrow>
                     (if neg then (if m \<le> 2 ^ 63 then Some (- m) else None)
                      else (if m < 2 ^ 63 then Some m else None)))))"



section \<open>Validation and the request\<close>

record Notification =
  Type :: string
  Title :: string
  Message :: string
  Timeout :: int
  AutoClose :: bool

definition validTypes :: "string list" where
  "validTypes = [''success'', ''error'', ''info'', ''warning'']"

fun isValidType :: "string \<Rightarrow> string list \<Rightarrow> bool" where
  \<comment> \<open>the \<open>range validTypes\<close> loop with its \<open>break\<close>\<close>
  "isValidType nt [] = False"
| "isValidType nt (t # ts) = (if nt = t then True else isValidType nt ts)"

definition upper_byte :: "char \<Rightarrow> char" where
  "upper_byte c =
     (if 97 \<le> (of_char c :: nat) \<and> (of_char c :: nat) \<le> 122
      then char_of ((of_char c :: nat) - 32) else c)"

definition isSeparator :: "char \<Rightarrow> bool" where
  \<comment> \<open>ASCII letters, digits and the underscore are no separators, other ASCII bytes are\<close>
  "isSeparator c =
     (let n = (of_char c :: nat)
      in \<not> ((48 \<le> n \<and> n \<le> 57) \<or> (97 \<le> n \<and> n \<le> 122) \<or> (65 \<le> n \<and> n \<le> 90) \<or> n = 95))"

fun Title_from :: "char \<Rightarrow> string \<Rightarrow> string" where
  "Title_from prev [] = []"
| "Title_from prev (c # cs) = (if isSeparator prev then upper_byte c else c) # Title_from c cs"

definition strings_Title :: "string \<Rightarrow> string" where
  \<comment> \<open>\<open>strings.Title(s)\<close> on ASCII text: the first letter of every word in upper case;
      \<open>main\<close> calls it on a validated type only\<close>
  "strings_Title s = Title_from (CHR '' '') s"

definition newline :: string where
  "newline = [CHR 0x0A]"

definition help_lines :: "string list" where
  \<open>help_lines =
     [''notify - A CLI notification utility'',
      '''',
      ''Usage:'',
      ''  notify MESSAGE [OPTIONS]'',
      '''',
      ''Arguments:'',
      ''  MESSAGE             The notification message (positional argument)'',
      '''',
      ''Options:'',
      ''  --title TITLE       Custom title for the notification (default: based on type)'',
      ''  --type TYPE         Type of notification: success, error, info, warning (default: info)'',
      ''  --timeout SECONDS   Timeout in seconds (default: 5)'',
      ''  --autoclose BOOLEAN Auto close after timeout (default: true)'',
      ''  --help              Show this help message'',
      '''',
      ''Examples:'',
      ''  notify "Operation completed successfully" --type success'',
      ''  notify "An error occurred" --type error --timeout 10'',
      ''  notify "Build done" --title "My App" --type success'',
      ''  notify "Download started" --title "Downloader" --type info --autoclose false'']\<close>

definition help_text :: string where
  \<comment> \<open>the raw string literal of \<open>showHelp\<close>: every line with its line feed\<close>
  "help_text = concat (map (\<lambda>l. l @ newline) help_lines)"

section \<open>The icon raster\<close>

datatype rgba = RGBA "8 word" "8 word" "8 word" "8 word"

record icon_entry =
  Color :: rgba
  Symbol :: string

definition iconData :: "string \<rightharpoonup> icon_entry" where
  \<comment> \<open>the symbols are the UTF-8 bytes of the check mark, the ballot x, the information
      sign and the warning sign\<close>
  "iconData = map_of
     [(''success'', \<lparr>Color = RGBA 46 204 113 255, Symbol = [CHR 0xE2, CHR 0x9C, CHR 0x93]\<rparr>),
      (''error'', \<lparr>Color = RGBA 231 76 60 255, Symbol = [CHR 0xE2, CHR 0x9C, CHR 0x97]\<rparr>),
      (''info'', \<lparr>Color = RGBA 52 152 219 255, Symbol = [CHR 0xE2, CHR 0x84, CHR 0xB9]\<rparr>),
      (''warning'', \<lparr>Color = RGBA 241 196 15 255, Symbol = [CHR 0xE2, CHR 0x9A, CHR 0xA0]\<rparr>)]"

definition iconData_at :: "string \<Rightarrow> icon_entry" where
  \<comment> \<open>\<open>iconData[k]\<close> without the \<open>ok\<close>: a missing key gives the zero value\<close>
  "iconData_at k =
     (case iconData k of Some d \<Rightarrow> d | None \<Rightarrow> \<lparr>Color = RGBA 0 0 0 0, Symbol = ''''\<rparr>)"

text \<open>
  \<open>image.RGBA\<close> of the Go standard library: the bytes of the pixels, four for each, row
  after row, the number of bytes of a row, and the rectangle of the image.
\<close>

record image_RGBA =
  Pix :: "8 word list"
  Stride :: int
  Rect_Min :: "int \<times> int"
  Rect_Max :: "int \<times> int"

definition NewRGBA :: "int \<times> int \<Rightarrow> int \<times> int \<Rightarrow> image_RGBA" where
  \<comment> \<open>\<open>image.NewRGBA(image.Rect(x0, y0, x1, y1))\<close> with \<open>x0 \<le> x1\<close> and \<open>y0 \<le> y1\<close>\<close>
  "NewRGBA mn mx =
     (let w = fst mx - fst mn; h = snd mx - snd mn
      in \<lparr>Pix = replicate (nat (4 * w * h)) 0, Stride = 4 * w, Rect_Min = mn, Rect_Max = mx\<rparr>)"

definition point_in :: "image_RGBA \<Rightarrow> int \<Rightarrow> int \<Rightarrow> bool" where
  \<comment> \<open>\<open>image.Point{x, y}.In(p.Rect)\<close>\<close>
  "point_in p x y =
     (fst (Rect_Min p) \<le> x \<and> x < fst (Rect_Max p) \<and> snd (Rect_Min p) \<le> y \<and> y < snd (Rect_Max p))"

definition PixOffset :: "image_RGBA \<Rightarrow> int \<Rightarrow> int \<Rightarrow> nat" where
  "PixOffset p x y = nat ((y - snd (Rect_Min p)) * Stride p + (x - fst (Rect_Min p)) * 4)"

definition Set_RGBA :: "image_RGBA \<Rightarrow> int \<Rightarrow> int \<Rightarrow> rgba \<Rightarrow> image_RGBA" where
  \<comment> \<open>\<open>img.Set(x, y, c)\<close> for a \<open>color.RGBA\<close>, which the colour model leaves as it is\<close>
  "Set_RGBA p x y c =
     (if \<not> point_in p x y then p
      else (let i = PixOffset p x y
            in (case c of RGBA r g b a \<Rightarrow>
                  p\<lparr>Pix := (Pix p)[i := r, i + 1 := g, i + 2 := b, i + 3 := a]\<rparr>)))"

definition RGBAAt :: "image_RGBA \<Rightarrow> int \<Rightarrow> int \<Rightarrow> rgba" where
  \<comment> \<open>\<open>img.RGBAAt(x, y)\<close>\<close>
  "RGBAAt p x y =
     (if \<not> point_in p x y then RGBA 0 0 0 0
      else (let i = PixOffset p x y
            in RGBA (Pix p ! i) (Pix p ! (i + 1)) (Pix p ! (i + 2)) (Pix p ! (i + 3))))"

function createIcon_loop_x ::
  "rgba \<Rightarrow> int \<Rightarrow> int \<Rightarrow> int \<Rightarrow> int \<Rightarrow> int \<Rightarrow> image_RGBA \<Rightarrow> image_RGBA" where
  "createIcon_loop_x col sz center radius y x img =
     (if x < sz then
        (let dx = x - center;
             dy = y - center;
             distance = dx * dx + dy * dy
         in createIcon_loop_x col sz center radius y (x + 1)
              (if distance \<le> radius * radius then Set_RGBA img x y col
               else Set_RGBA img x y (RGBA 0 0 0 0)))
      else img)"
  by pat_completeness auto
termination
  by (relation "measure (\<lambda>(col, sz, center, radius, y, x, img). nat (sz - x))") auto

function createIcon_loop_y ::
  "rgba \<Rightarrow> int \<Rightarrow> int \<Rightarrow> int \<Rightarrow> int \<Rightarrow> image_RGBA \<Rightarrow> image_RGBA" where
  "createIcon_loop_y col sz center radius y img =
     (if y < sz then
        createIcon_loop_y col sz center radius (y + 1)
          (createIcon_loop_x col sz center radius y 0 img)
      else img)"
  by pat_completeness auto
termination
  by (relation "measure (\<lambda>(col, sz, center, radius, y, img). nat (sz - y))") auto

declare createIcon_loop_x.simps [simp del]
declare createIcon_loop_y.simps [simp del]

definition createIcon_image :: "string \<Rightarrow> image_RGBA" where
  \<comment> \<open>the raster \<open>createIcon\<close> draws before it touches the file system
      (\<open>sz\<close> is the variable \<open>size\<close> of the source)\<close>
  "createIcon_image nType =
     (let data = (case iconData nType of Some d \<Rightarrow> d | None \<Rightarrow> iconData_at ''info'');
          sz = 64;
          img = NewRGBA (0, 0) (sz, sz);
          center = sz div 2;
          radius = sz div 2 - 4
      in createIcon_loop_y (Color data) sz center radius 0 img)"

section \<open>The operating system and the toast library\<close>

text \<open>
  \<open>toast.Notification\<close> of \<open>go-toast\<close>, with the fields \<open>displayNotification\<close> sets;
  \<open>toast_Title\<close> and \<open>toast_Message\<close> are its \<open>Title\<close> and \<open>Message\<close>. The duration
  and the audio cue are the library's constants; \<open>NoAudio\<close> is the zero value of a
  notification whose \<open>Audio\<close> has not been set.
\<close>

datatype toast_duration = Short | Long

datatype toast_audio = NoAudio | Default | Silent

record toast_Notification =
  AppID :: string
  toast_Title :: string
  toast_Message :: string
  Icon :: string
  Duration :: toast_duration
  ActivationType :: string
  ActivationArguments :: string
  Audio :: toast_audio

text \<open>
  What the program does to the world is a list of events, in the order of the calls.
  What the world answers is read from an environment: the temporary directory, the
  path \<open>filepath.Join\<close> builds, and the error (if any) of each call that can fail.
  An error is its text.
\<close>

datatype event =
    Print string
  | Create string
  | Encode string image_RGBA
  | Close string
  | Push toast_Notification
  | Sleep_ms nat
  | Remove string "string option"

record os_env =
  TempDir :: string
  Join :: "string \<Rightarrow> string \<Rightarrow> string"
  Create_error :: "string \<Rightarrow> string option"
  Encode_error :: "string \<Rightarrow> string option"
  Push_error :: "toast_Notification \<Rightarrow> string option"
  Remove_error :: "string \<Rightarrow> string option"

definition createIcon :: "os_env \<Rightarrow> string \<Rightarrow> (string + string) \<times> event list" where
  \<comment> \<open>\<open>Inl\<close> is the error, \<open>Inr\<close> the path; the deferred \<open>file.Close()\<close> runs on return\<close>
  "createIcon env nType =
     (let img = createIcon_image nType;
          tempDir = TempDir env;
          iconPath = Join env tempDir (''notify_icon_'' @ nType @ ''.png'')
      in (case Create_error env iconPath of
            Some err \<Rightarrow> (Inl err, [Create iconPath])
          | None \<Rightarrow>
              (case Encode_error env iconPath of
                 Some err \<Rightarrow> (Inl err, [Create iconPath, Encode iconPath img, Close iconPath])
               | None \<Rightarrow> (Inr iconPath, [Create iconPath, Encode iconPath img, Close iconPath]))))"

definition getIconPath :: "os_env \<Rightarrow> string \<Rightarrow> (string + string) \<times> event list" where
  "getIconPath env nType =
     (case createIcon env nType of
        (Inl err, tr) \<Rightarrow> (Inl err, tr)
      | (Inr iconPath, tr) \<Rightarrow> (Inr iconPath, tr))"

definition build_toast :: "Notification \<Rightarrow> string \<Rightarrow> toast_Notification" where
  \<comment> \<open>the part of \<open>displayNotification\<close> from \<open>Build toast notification\<close> to the call of
      \<open>Push\<close>: the literal, the \<open>switch\<close> on the type and the \<open>if\<close> on \<open>AutoClose\<close>\<close>
  "build_toast n iconPath =
     (let notification =
            \<lparr>AppID = ''Notify CLI'', toast_Title = Title n, toast_Message = Message n,
             Icon = iconPath, Duration = Short, ActivationType = ''protocol'',
             ActivationArguments = ''dismiss'', Audio = NoAudio\<rparr>;
          notification =
            (if Type n = ''success'' \<or> Type n = ''error'' \<or> Type n = ''warning''
             then notification\<lparr>Audio := Default\<rparr>
             else notification\<lparr>Audio := Silent\<rparr>)
      in if \<not> AutoClose n then notification\<lparr>Duration := Long\<rparr> else notification)"

definition displayNotification :: "os_env \<Rightarrow> Notification \<Rightarrow> string option \<times> event list" where
  \<comment> \<open>the error returned (\<open>None\<close> is \<open>nil\<close>) and the events\<close>
  "displayNotification env n =
     (let (r, tr) = getIconPath env (Type n);
          iconPath = (case r of Inl err \<Rightarrow> '''' | Inr p \<Rightarrow> p);
          notification = build_toast n iconPath
      in (case Push_error env notification of
            Some err \<Rightarrow> (Some err, tr @ [Push notification])
          | None \<Rightarrow>
              (None,
               tr @ [Push notification, Sleep_ms 500] @
               (if iconPath \<noteq> '''' then [Remove iconPath (Remove_error env iconPath)] else []))))"

definition showHelp :: "event list" where
  \<comment> \<open>\<open>fmt.Println\<close> of the help text\<close>
  "showHelp = [Print (help_text @ newline)]"

definition make_Notification :: "parse_state \<Rightarrow> Notification" where
  \<comment> \<open>the title and the \<open>Notification\<close> that \<open>main\<close> builds once the input is valid\<close>
  "make_Notification st =
     (let title = customTitle st;
          title = (if title = '''' then strings_Title (notificationType st) else title)
      in \<lparr>Type = notificationType st, Title = title, Message = message st,
          Timeout = timeout st, AutoClose = autoClose st\<rparr>)"

definition main :: "os_env \<Rightarrow> string list \<Rightarrow> event list \<times> int" where
  \<comment> \<open>the events of a run and the exit code of the process (2 for a panic of the Go
      runtime)\<close>
  "main env args =
     (case parse_args args of
        Inl p \<Rightarrow> ([], 2)
      | Inr HelpRequested \<Rightarrow> (showHelp, 0)
      | Inr (Parsed st) \<Rightarrow>
          if message st = '''' then
            (Print (''Message is required as a positional argument'' @ newline) # showHelp, 1)
          else if \<not> isValidType (notificationType st) validTypes then
            ([Print (''Invalid notification type: '' @ notificationType st @
                     ''. Valid types are: success, error, info, warning'' @ newline)], 1)
          else
            (case displayNotification env (make_Notification st) of
               (Some err, tr) \<Rightarrow>
                 (tr @ [Print (''Error displaying notification: '' @ err @ newline)], 1)
             | (None, tr) \<Rightarrow> (tr, 0)))"

subsection \<open>Readings of a run\<close>

fun pushed :: "event list \<Rightarrow> toast_Notification list" where
  \<comment> \<open>the notifications given to the notification service, in order\<close>
  "pushed [] = []"
| "pushed (Push t # es) = t # pushed es"
| "pushed (e # es) = pushed es"

fun removed :: "event list \<Rightarrow> string list" where
  \<comment> \<open>the paths given to \<open>os.Remove\<close>, in order\<close>
  "removed [] = []"
| "removed (Remove p r # es) = p # removed es"
| "removed (e # es) = removed es"

definition icon_or_empty :: "string + string \<Rightarrow> string" where
  \<comment> \<open>the icon path \<open>displayNotification\<close> goes on with\<close>
  "icon_or_empty r = (case r of Inl err \<Rightarrow> '''' | Inr p \<Rightarrow> p)"

definition square_image :: "image_RGBA \<Rightarrow> int \<Rightarrow> bool" where
  \<comment> \<open>an image as \<open>NewRGBA\<close> makes it for the square of side \<open>sz\<close> at the origin\<close>
  "square_image p sz =
     (0 \<le> sz \<and> Rect_Min p = (0, 0) \<and> Rect_Max p = (sz, sz) \<and> Stride p = 4 * sz \<and>
      length (Pix p) = 4 * nat (sz * sz))"

definition circle_pixel :: "rgba \<Rightarrow> int \<Rightarrow> int \<Rightarrow> int \<Rightarrow> int \<Rightarrow> rgba" where
  \<comment> \<open>the colour one run of the inner loop writes at \<open>(x, y)\<close>\<close>
  "circle_pixel col center radius x y =
     (if (x - center) * (x - center) + (y - center) * (y - center) \<le> radius * radius
      then col else RGBA 0 0 0 0)"

definition env_push_fails :: os_env where
  \<comment> \<open>a world where every file operation succeeds and the notification service fails\<close>
  "env_push_fails =
     \<lparr>TempDir = ''/tmp'', Join = (\<lambda>d f. d @ ''/'' @ f), Create_error = (\<lambda>p. None),
      Encode_error = (\<lambda>p. None), Push_error = (\<lambda>t. Some ''toast failed''),
      Remove_error = (\<lambda>p. None)\<rparr>"

definition env_ok :: os_env where
  \<comment> \<open>a world where every call succeeds\<close>
  "env_ok = env_push_fails\<lparr>Push_error := (\<lambda>t. None)\<rparr>"

definition env_remove_fails :: os_env where
  \<comment> \<open>a world where only the removal of a file fails\<close>
  "env_remove_fails = env_ok\<lparr>Remove_error := (\<lambda>p. Some ''access denied'')\<rparr>"

definition env_no_icon :: os_env where
  \<comment> \<open>a world where the icon file cannot be created\<close>
  "env_no_icon = env_ok\<lparr>Create_error := (\<lambda>p. Some ''access denied'')\<rparr>"

definition build_complete :: Notification where
  "build_complete =
     \<lparr>Type = ''success'', Title = ''Success'', Message = ''Build complete'', Timeout = 5,
      AutoClose = True\<rparr>"

section \<open>Lemmas about the parse step\<close>

lemma HasPrefix_Nil: "HasPrefix s []"
  by (simp add: HasPrefix_def)

lemma HasPrefix_Nil_left: "HasPrefix [] (c # p) = False"
  by (simp add: HasPrefix_def)

lemma HasPrefix_Cons: "HasPrefix (c # s) (d # p) = (c = d \<and> HasPrefix s p)"
  by (simp add: HasPrefix_def)

lemmas HasPrefix_simps = HasPrefix_Nil HasPrefix_Nil_left HasPrefix_Cons

lemma TrimPrefix_append: "TrimPrefix (p @ v) p = v"
  by (simp add: TrimPrefix_def HasPrefix_def)

lemma HasPrefix_append: "HasPrefix (p @ v) p"
  by (simp add: HasPrefix_def)

lemma step_help:
  "i < length args \<Longrightarrow> args ! i \<in> {''--help'', ''-help'', ''-h''} \<Longrightarrow>
   parse_step args i st = Inr ExitHelp"
  by (auto simp: parse_step_def index_def)

lemma step_type_eq:
  "i < length args \<Longrightarrow> args ! i = ''--type='' @ v \<Longrightarrow>
   parse_step args i st = Inr (Continue (i + 1) (st\<lparr>notificationType := v\<rparr>))"
  using TrimPrefix_append[of "''--type=''" v]
  by (simp add: parse_step_def index_def HasPrefix_simps)

lemma step_type:
  "i + 1 < length args \<Longrightarrow> args ! i \<in> {''--type'', ''-type''} \<Longrightarrow>
   parse_step args i st = Inr (Continue (i + 2) (st\<lparr>notificationType := args ! (i + 1)\<rparr>))"
  by (auto simp: parse_step_def index_def HasPrefix_simps)

lemma step_title_eq:
  "i < length args \<Longrightarrow> args ! i = ''--title='' @ v \<Longrightarrow>
   parse_step args i st = Inr (Continue (i + 1) (st\<lparr>customTitle := v\<rparr>))"
  using TrimPrefix_append[of "''--title=''" v]
  by (simp add: parse_step_def index_def HasPrefix_simps)

lemma step_title:
  "i + 1 < length args \<Longrightarrow> args ! i \<in> {''--title'', ''-title''} \<Longrightarrow>
   parse_step args i st = Inr (Continue (i + 2) (st\<lparr>customTitle := args ! (i + 1)\<rparr>))"
  by (auto simp: parse_step_def index_def HasPrefix_simps)

lemma step_timeout_eq:
  "i < length args \<Longrightarrow> args ! i = ''--timeout='' @ v \<Longrightarrow>
   parse_step args i st =
     Inr (Continue (i + 1) (case Atoi v of Some val \<Rightarrow> st\<lparr>timeout := val\<rparr> | None \<Rightarrow> st))"
  using TrimPrefix_append[of "''--timeout=''" v]
  by (simp add: parse_step_def index_def HasPrefix_simps)

lemma step_timeout:
  "i + 1 < length args \<Longrightarrow> args ! i \<in> {''--timeout'', ''-timeout''} \<Longrightarrow>
   parse_step args i st =
     Inr (Continue (i + 2)
            (case Atoi (args ! (i + 1)) of Some val \<Rightarrow> st\<lparr>timeout := val\<rparr> | None \<Rightarrow> st))"
  by (auto simp: parse_step_def index_def HasPrefix_simps)

lemma step_autoclose_eq:
  "i < length args \<Longrightarrow> args ! i = ''--autoclose='' @ v \<Longrightarrow>
   parse_step args i st = Inr (Continue (i + 1) (st\<lparr>autoClose := parseBool v\<rparr>))"
  using TrimPrefix_append[of "''--autoclose=''" v]
  by (simp add: parse_step_def index_def HasPrefix_simps)

lemma step_autoclose:
  "i + 1 < length args \<Longrightarrow> args ! i \<in> {''--autoclose'', ''-autoclose''} \<Longrightarrow>
   parse_step args i st = Inr (Continue (i + 2) (st\<lparr>autoClose := parseBool (args ! (i + 1))\<rparr>))"
  by (auto simp: parse_step_def index_def HasPrefix_simps)

lemma step_plain:
  assumes "i < length args" and "\<not> HasPrefix (args ! i) ''-''"
  shows "parse_step args i st = Inr (Continue (i + 1) (st\<lparr>message := args ! i\<rparr>))"
proof (cases "args ! i")
  case Nil
  with assms show ?thesis by (simp add: parse_step_def index_def HasPrefix_simps)
next
  case (Cons c t)
  with assms have "c \<noteq> CHR ''-''" by (simp add: HasPrefix_simps)
  with Cons assms show ?thesis by (simp add: parse_step_def index_def HasPrefix_simps)
qed

lemma step_other:
  "i < length args \<Longrightarrow> HasPrefix (args ! i) ''-'' \<Longrightarrow>
   args ! i \<notin> {''--help'', ''-help'', ''-h''} \<Longrightarrow> \<not> takes_value (args ! i) \<Longrightarrow>
   \<not> HasPrefix (args ! i) ''--type='' \<Longrightarrow> \<not> HasPrefix (args ! i) ''--title='' \<Longrightarrow>
   \<not> HasPrefix (args ! i) ''--timeout='' \<Longrightarrow> \<not> HasPrefix (args ! i) ''--autoclose='' \<Longrightarrow>
   parse_step args i st = Inr (Continue (i + 1) st)"
  by (simp add: parse_step_def index_def takes_value_def)

lemma step_flag_last:
  "i < length args \<Longrightarrow> \<not> i + 1 < length args \<Longrightarrow> takes_value (args ! i) \<Longrightarrow>
   parse_step args i st = Inr (Continue (i + 1) st)"
  apply (simp only: takes_value_def insert_iff empty_iff)
  apply (elim disjE)
         apply (simp_all add: parse_step_def index_def HasPrefix_def)
  done

lemma HasPrefix_iff: "HasPrefix s p \<longleftrightarrow> (\<exists>v. s = p @ v)"
  unfolding HasPrefix_def
proof
  assume "take (length p) s = p"
  then have "s = p @ drop (length p) s" by (metis append_take_drop_id)
  then show "\<exists>v. s = p @ v" ..
next
  assume "\<exists>v. s = p @ v"
  then show "take (length p) s = p" by auto
qed

lemma takes_value_dash: "takes_value a \<Longrightarrow> HasPrefix a ''-''"
  apply (simp only: takes_value_def insert_iff empty_iff)
  apply (elim disjE)
         apply (simp_all add: HasPrefix_def)
  done

lemma takes_value_cases:
  "takes_value a \<longleftrightarrow>
     a \<in> {''--type'', ''-type''} \<or> a \<in> {''--title'', ''-title''} \<or>
     a \<in> {''--timeout'', ''-timeout''} \<or> a \<in> {''--autoclose'', ''-autoclose''}"
  by (simp add: takes_value_def disj_ac)

lemma not_takes_value_eq:
  "\<not> takes_value (''--type='' @ v)" "\<not> takes_value (''--title='' @ v)"
  "\<not> takes_value (''--timeout='' @ v)" "\<not> takes_value (''--autoclose='' @ v)"
  by (simp_all add: takes_value_def)

lemma parse_step_continue:
  assumes i: "i < length args" and step: "parse_step args i st = Inr (Continue i' st')"
  shows "i' = next_index args i \<and>
         message st' = (if HasPrefix (args ! i) ''-'' then message st else args ! i)"
proof (cases "HasPrefix (args ! i) ''-''")
  case False
  then have "\<not> takes_value (args ! i)" using takes_value_dash by blast
  with False step_plain[OF i False, of st] step show ?thesis
    by (simp add: next_index_def)
next
  case dash: True
  consider (hlp) "args ! i \<in> {''--help'', ''-help'', ''-h''}"
    | (eq) v where "args ! i = ''--type='' @ v \<or> args ! i = ''--title='' @ v \<or>
                    args ! i = ''--timeout='' @ v \<or> args ! i = ''--autoclose='' @ v"
    | (flag) "takes_value (args ! i)"
    | (other) "args ! i \<notin> {''--help'', ''-help'', ''-h''}" "\<not> takes_value (args ! i)"
        "\<not> HasPrefix (args ! i) ''--type=''" "\<not> HasPrefix (args ! i) ''--title=''"
        "\<not> HasPrefix (args ! i) ''--timeout=''" "\<not> HasPrefix (args ! i) ''--autoclose=''"
    using HasPrefix_iff by blast
  then show ?thesis
  proof cases
    case hlp
    with step_help[OF i hlp, of st] step show ?thesis by simp
  next
    case eq
    then show ?thesis
    proof (elim disjE)
      assume a: "args ! i = ''--type='' @ v"
      show ?thesis using step_type_eq[OF i a, of st] step dash not_takes_value_eq(1)[of v]
        by (auto simp add: next_index_def a)
    next
      assume a: "args ! i = ''--title='' @ v"
      show ?thesis using step_title_eq[OF i a, of st] step dash not_takes_value_eq(2)[of v]
        by (auto simp add: next_index_def a)
    next
      assume a: "args ! i = ''--timeout='' @ v"
      show ?thesis using step_timeout_eq[OF i a, of st] step dash not_takes_value_eq(3)[of v]
        by (auto simp add: next_index_def a split: option.splits)
    next
      assume a: "args ! i = ''--autoclose='' @ v"
      show ?thesis using step_autoclose_eq[OF i a, of st] step dash not_takes_value_eq(4)[of v]
        by (auto simp add: next_index_def a)
    qed
  next
    case flag
    show ?thesis
    proof (cases "i + 1 < length args")
      case False
      with step_flag_last[OF i False flag, of st] step dash flag show ?thesis
        by (simp add: next_index_def)
    next
      case True
      from flag consider "args ! i \<in> {''--type'', ''-type''}" | "args ! i \<in> {''--title'', ''-title''}"
        | "args ! i \<in> {''--timeout'', ''-timeout''}" | "args ! i \<in> {''--autoclose'', ''-autoclose''}"
        using takes_value_cases by blast
      then show ?thesis
      proof cases
        case 1
        with step_type[OF True 1, of st] step dash flag True show ?thesis
          by (simp add: next_index_def)
      next
        case 2
        with step_title[OF True 2, of st] step dash flag True show ?thesis
          by (simp add: next_index_def)
      next
        case 3
        with step_timeout[OF True 3, of st] step dash flag True show ?thesis
          by (auto simp add: next_index_def split: option.splits)
      next
        case 4
        with step_autoclose[OF True 4, of st] step dash flag True show ?thesis
          by (simp add: next_index_def)
      qed
    qed
  next
    case other
    with step_other[OF i dash other, of st] step dash show ?thesis
      by (simp add: next_index_def)
  qed
qed

lemma parse_step_no_panic:
  "i < length args \<Longrightarrow> \<exists>r. parse_step args i st = Inr r"
  by (simp add: parse_step_def index_def)

lemma parse_loop_no_panic: "\<exists>r. parse_loop args i st = Inr r"
proof (induction args i st rule: parse_loop.induct)
  case (1 args i st)
  show ?case
  proof (cases "i < length args")
    case True
    then obtain r where r: "parse_step args i st = Inr r"
      using parse_step_no_panic by blast
    show ?thesis
    proof (cases r)
      case ExitHelp
      with True r show ?thesis by (simp add: parse_loop.simps[of args i st])
    next
      case (Continue i' st')
      with True r 1 show ?thesis by (simp add: parse_loop.simps[of args i st])
    qed
  next
    case False
    then show ?thesis by (simp add: parse_loop.simps[of args i st])
  qed
qed

lemma parse_loop_end: "\<not> i < length args \<Longrightarrow> parse_loop args i st = Inr (Parsed st)"
  by (simp add: parse_loop.simps[of args i st])

lemma parse_loop_continue:
  "i < length args \<Longrightarrow> parse_step args i st = Inr (Continue i' st') \<Longrightarrow>
   parse_loop args i st = parse_loop args i' st'"
  by (simp add: parse_loop.simps[of args i st])

lemma parse_loop_help:
  "i < length args \<Longrightarrow> parse_step args i st = Inr ExitHelp \<Longrightarrow>
   parse_loop args i st = Inr HelpRequested"
  by (simp add: parse_loop.simps[of args i st])

lemma drop_last: "i + 1 = length args \<Longrightarrow> drop i args = [args ! i]"
  by (metis Cons_nth_drop_Suc Suc_eq_plus1 drop_all lessI order_refl)

lemma unconsumed_drop:
  assumes "i < length args"
  shows "unconsumed (drop i args) = args ! i # unconsumed (drop (next_index args i) args)"
proof (cases "i + 1 < length args")
  case True
  then have "drop (i + 1) args = args ! (i + 1) # drop (i + 2) args"
    by (metis Cons_nth_drop_Suc Suc_eq_plus1 add_2_eq_Suc')
  moreover have "drop i args = args ! i # drop (i + 1) args"
    using assms by (simp add: Cons_nth_drop_Suc)
  ultimately show ?thesis using True by (simp add: next_index_def)
next
  case False
  with assms have "i + 1 = length args" by simp
  then show ?thesis using drop_last[of i args] by (simp add: next_index_def)
qed

lemma positionals_drop:
  assumes "i < length args"
  shows "positionals (drop i args) =
           (if HasPrefix (args ! i) ''-'' then [] else [args ! i]) @
           positionals (drop (next_index args i) args)"
  by (simp add: positionals_def unconsumed_drop[OF assms])

lemma parse_loop_message:
  "parse_loop args i st = Inr (Parsed st') \<Longrightarrow>
   message st' =
     (if positionals (drop i args) = [] then message st else last (positionals (drop i args)))"
proof (induction args i st rule: parse_loop.induct)
  case (1 args i st)
  show ?case
  proof (cases "i < length args")
    case False
    with "1.prems" show ?thesis
      by (simp add: parse_loop_end positionals_def)
  next
    case True
    then obtain r where r: "parse_step args i st = Inr r"
      using parse_step_no_panic by blast
    show ?thesis
    proof (cases r)
      case ExitHelp
      with True r "1.prems" show ?thesis by (simp add: parse_loop_help)
    next
      case (Continue i' st'')
      with r have step: "parse_step args i st = Inr (Continue i' st'')" by simp
      from parse_step_continue[OF True step]
      have nxt: "i' = next_index args i"
        and msg: "message st'' = (if HasPrefix (args ! i) ''-'' then message st else args ! i)"
        by simp_all
      have "parse_loop args i' st'' = Inr (Parsed st')"
        using "1.prems" parse_loop_continue[OF True step] by simp
      from "1.IH"[OF True step refl this]
      have "message st' =
              (if positionals (drop i' args) = [] then message st''
               else last (positionals (drop i' args)))" .
      then show ?thesis
        using msg by (simp add: positionals_drop[OF True] nxt)
    qed
  qed
qed

subsection \<open>The boolean text\<close>





section \<open>Lemmas about the image\<close>

lemma cell_bound:
  assumes "0 \<le> x" "x < sz" "0 \<le> y" "y < (sz::int)"
  shows "0 \<le> y * sz + x" and "y * sz + x < sz * sz"
proof -
  from assms show "0 \<le> y * sz + x" by simp
  have "y * sz \<le> (sz - 1) * sz" using assms by (intro mult_right_mono) auto
  also have "\<dots> = sz * sz - sz" by (simp add: algebra_simps)
  finally show "y * sz + x < sz * sz" using assms by linarith
qed

lemma cell_inj:
  assumes "0 \<le> x" "x < sz" "0 \<le> x'" "x' < (sz::int)" "y * sz + x = y' * sz + x'"
  shows "x = x' \<and> y = y'"
proof -
  have "(y * sz + x) mod sz = x" "(y' * sz + x') mod sz = x'"
    using assms(1-4) by simp_all
  then have x: "x = x'" using assms(5) by simp
  have "0 < sz" using assms(1,2) by simp
  then have "(y * sz + x) div sz = y" "(y' * sz + x') div sz = y'"
    using assms(1-4) by simp_all
  then have "y = y'" using assms(5) by simp
  with x show ?thesis by simp
qed

lemma PixOffset_square:
  assumes "square_image p sz" "point_in p x y"
  shows "PixOffset p x y = 4 * nat (y * sz + x)"
proof -
  from assms have b: "0 \<le> x" "x < sz" "0 \<le> y" "y < sz"
    by (simp_all add: square_image_def point_in_def)
  then have "0 \<le> y * sz + x" by (rule cell_bound)
  moreover have "(y - snd (Rect_Min p)) * Stride p + (x - fst (Rect_Min p)) * 4 = 4 * (y * sz + x)"
    using assms(1) by (simp add: square_image_def algebra_simps)
  ultimately show ?thesis by (simp add: PixOffset_def nat_mult_distrib)
qed

lemma cell_in_Pix:
  assumes "square_image p sz" "point_in p x y"
  shows "4 * nat (y * sz + x) + 3 < length (Pix p)"
proof -
  from assms have b: "0 \<le> x" "x < sz" "0 \<le> y" "y < sz"
    by (simp_all add: square_image_def point_in_def)
  then have "y * sz + x < sz * sz" "0 \<le> y * sz + x" by (rule cell_bound)+
  then have "nat (y * sz + x) < nat (sz * sz)" by simp
  moreover have "length (Pix p) = 4 * nat (sz * sz)"
    using assms(1) by (simp add: square_image_def)
  ultimately show ?thesis by linarith
qed

lemma square_image_Set: "square_image p sz \<Longrightarrow> square_image (Set_RGBA p x y c) sz"
  by (cases c) (simp add: square_image_def Set_RGBA_def Let_def)

lemma point_in_Set: "point_in (Set_RGBA p x y c) x' y' = point_in p x' y'"
  by (cases c) (simp add: Set_RGBA_def point_in_def Let_def)

lemma point_in_square: "square_image p sz \<Longrightarrow> point_in p x y = (0 \<le> x \<and> x < sz \<and> 0 \<le> y \<and> y < sz)"
  by (auto simp add: square_image_def point_in_def)

lemma RGBAAt_Set:
  assumes sq: "square_image p sz" and inp: "point_in p x y" and inp': "point_in p x' y'"
  shows "RGBAAt (Set_RGBA p x y c) x' y' = (if x' = x \<and> y' = y then c else RGBAAt p x' y')"
proof -
  obtain r g b a where c: "c = RGBA r g b a" by (cases c)
  define k where "k = nat (y * sz + x)"
  define k' where "k' = nat (y' * sz + x')"
  have off: "PixOffset p x y = 4 * k" "PixOffset p x' y' = 4 * k'"
    using PixOffset_square[OF sq inp] PixOffset_square[OF sq inp'] by (simp_all add: k_def k'_def)
  have len: "4 * k + 3 < length (Pix p)" "4 * k' + 3 < length (Pix p)"
    using cell_in_Pix[OF sq inp] cell_in_Pix[OF sq inp'] by (simp_all add: k_def k'_def)
  have sq': "square_image (Set_RGBA p x y c) sz" using sq by (rule square_image_Set)
  have off': "PixOffset (Set_RGBA p x y c) x' y' = 4 * k'"
    using PixOffset_square[OF sq', of x' y'] inp' by (simp add: point_in_Set k'_def)
  have pix: "Pix (Set_RGBA p x y c) = (Pix p)[4 * k := r, 4 * k + 1 := g, 4 * k + 2 := b, 4 * k + 3 := a]"
    using inp by (simp add: Set_RGBA_def c off Let_def numeral_3_eq_3)
  have rd: "RGBAAt (Set_RGBA p x y c) x' y' =
      RGBA (Pix (Set_RGBA p x y c) ! (4 * k')) (Pix (Set_RGBA p x y c) ! (4 * k' + 1))
           (Pix (Set_RGBA p x y c) ! (4 * k' + 2)) (Pix (Set_RGBA p x y c) ! (4 * k' + 3))"
    using inp' by (simp add: RGBAAt_def point_in_Set off' Let_def)
  have rd0: "RGBAAt p x' y' =
      RGBA (Pix p ! (4 * k')) (Pix p ! (4 * k' + 1)) (Pix p ! (4 * k' + 2)) (Pix p ! (4 * k' + 3))"
    using inp' by (simp add: RGBAAt_def off Let_def)
  have b: "0 \<le> x" "x < sz" "0 \<le> y" "y < sz" "0 \<le> x'" "x' < sz" "0 \<le> y'" "y' < sz"
    using inp inp' by (simp_all add: point_in_square[OF sq])
  show ?thesis
  proof (cases "x' = x \<and> y' = y")
    case True
    then have "k' = k" by (simp add: k_def k'_def)
    with True len show ?thesis
      unfolding rd pix by (simp add: c)
  next
    case False
    have "y * sz + x \<noteq> y' * sz + x'" using cell_inj[of x sz x' y y'] b False by auto
    moreover have "0 \<le> y * sz + x" "0 \<le> y' * sz + x'" using b by simp_all
    ultimately have "k \<noteq> k'" by (simp add: k_def k'_def)
    then have "k \<noteq> k'" .
    moreover have "(if x' = x \<and> y' = y then c else RGBAAt p x' y') = RGBAAt p x' y'"
      using False by auto
    ultimately show ?thesis
      using len unfolding rd rd0 pix by simp
  qed
qed

lemma loop_x_spec:
  assumes "square_image img sz" "0 \<le> y" "y < sz" "0 \<le> x"
  shows "square_image (createIcon_loop_x col sz center radius y x img) sz \<and>
         (\<forall>x' y'. 0 \<le> x' \<and> x' < sz \<and> 0 \<le> y' \<and> y' < sz \<longrightarrow>
            RGBAAt (createIcon_loop_x col sz center radius y x img) x' y' =
              (if y' = y \<and> x \<le> x' then circle_pixel col center radius x' y'
               else RGBAAt img x' y'))"
  using assms
proof (induction col sz center radius y x img rule: createIcon_loop_x.induct)
  case (1 col sz center radius y x img)
  show ?case
  proof (cases "x < sz")
    case False
    with "1.prems" show ?thesis
      by (auto simp add: createIcon_loop_x.simps[of col sz center radius y x img])
  next
    case True
    define img' where "img' = Set_RGBA img x y (circle_pixel col center radius x y)"
    have unfold: "createIcon_loop_x col sz center radius y x img =
                  createIcon_loop_x col sz center radius y (x + 1) img'"
      using True
      by (simp add: createIcon_loop_x.simps[of col sz center radius y x img] img'_def
            circle_pixel_def Let_def)
    have sq': "square_image img' sz" using "1.prems"(1) by (simp add: img'_def square_image_Set)
    have inxy: "point_in img x y"
      using "1.prems" True by (simp add: point_in_square[OF "1.prems"(1)])
    have IH: "square_image (createIcon_loop_x col sz center radius y (x + 1) img') sz \<and>
         (\<forall>x' y'. 0 \<le> x' \<and> x' < sz \<and> 0 \<le> y' \<and> y' < sz \<longrightarrow>
            RGBAAt (createIcon_loop_x col sz center radius y (x + 1) img') x' y' =
              (if y' = y \<and> x + 1 \<le> x' then circle_pixel col center radius x' y'
               else RGBAAt img' x' y'))"
    proof -
      have eq: "(if (x - center) * (x - center) + (y - center) * (y - center) \<le> radius * radius
                 then Set_RGBA img x y col else Set_RGBA img x y (RGBA 0 0 0 0)) = img'"
        by (simp add: img'_def circle_pixel_def)
      have "0 \<le> x + 1" using "1.prems" by simp
      with "1.IH"[OF True refl refl refl, unfolded eq] sq' "1.prems" show ?thesis by blast
    qed
    have rd: "RGBAAt img' x' y' = (if x' = x \<and> y' = y then circle_pixel col center radius x y
                                   else RGBAAt img x' y')"
      if "0 \<le> x'" "x' < sz" "0 \<le> y'" "y' < sz" for x' y'
      unfolding img'_def
      by (rule RGBAAt_Set[OF "1.prems"(1) inxy]) (simp add: point_in_square[OF "1.prems"(1)] that)
    show ?thesis
      unfolding unfold using IH rd by auto
  qed
qed

lemma loop_y_spec:
  assumes "square_image img sz" "0 \<le> y"
  shows "square_image (createIcon_loop_y col sz center radius y img) sz \<and>
         (\<forall>x' y'. 0 \<le> x' \<and> x' < sz \<and> 0 \<le> y' \<and> y' < sz \<longrightarrow>
            RGBAAt (createIcon_loop_y col sz center radius y img) x' y' =
              (if y \<le> y' then circle_pixel col center radius x' y' else RGBAAt img x' y'))"
  using assms
proof (induction col sz center radius y img rule: createIcon_loop_y.induct)
  case (1 col sz center radius y img)
  show ?case
  proof (cases "y < sz")
    case False
    with "1.prems" show ?thesis
      by (auto simp add: createIcon_loop_y.simps[of col sz center radius y img])
  next
    case True
    define img' where "img' = createIcon_loop_x col sz center radius y 0 img"
    have unfold: "createIcon_loop_y col sz center radius y img =
                  createIcon_loop_y col sz center radius (y + 1) img'"
      using True by (simp add: createIcon_loop_y.simps[of col sz center radius y img] img'_def)
    have row: "square_image img' sz \<and>
         (\<forall>x' y'. 0 \<le> x' \<and> x' < sz \<and> 0 \<le> y' \<and> y' < sz \<longrightarrow>
            RGBAAt img' x' y' =
              (if y' = y \<and> 0 \<le> x' then circle_pixel col center radius x' y'
               else RGBAAt img x' y'))"
      unfolding img'_def using "1.prems" True by (intro loop_x_spec) simp_all
    then have sq': "square_image img' sz" by simp
    have IH: "square_image (createIcon_loop_y col sz center radius (y + 1) img') sz \<and>
         (\<forall>x' y'. 0 \<le> x' \<and> x' < sz \<and> 0 \<le> y' \<and> y' < sz \<longrightarrow>
            RGBAAt (createIcon_loop_y col sz center radius (y + 1) img') x' y' =
              (if y + 1 \<le> y' then circle_pixel col center radius x' y' else RGBAAt img' x' y'))"
      using "1.IH"[OF True] sq' "1.prems" by (simp add: img'_def)
    show ?thesis
      unfolding unfold using IH row by auto
  qed
qed

lemma square_image_NewRGBA: "0 \<le> sz \<Longrightarrow> square_image (NewRGBA (0, 0) (sz, sz)) sz"
  by (simp add: square_image_def NewRGBA_def Let_def nat_mult_distrib)

section \<open>Lemmas about the events\<close>

lemma pushed_append: "pushed (xs @ ys) = pushed xs @ pushed ys"
  by (induction xs rule: pushed.induct) simp_all

lemma removed_append: "removed (xs @ ys) = removed xs @ removed ys"
  by (induction xs rule: removed.induct) simp_all

lemma createIcon_events:
  "pushed (snd (createIcon env nType)) = [] \<and> removed (snd (createIcon env nType)) = []"
  by (simp add: createIcon_def Let_def split: option.split)

lemma getIconPath_createIcon: "getIconPath env nType = createIcon env nType"
  by (simp add: getIconPath_def split: prod.split sum.split)

lemma getIconPath_events:
  "pushed (snd (getIconPath env nType)) = [] \<and> removed (snd (getIconPath env nType)) = []"
  by (simp add: getIconPath_createIcon createIcon_events)

lemma createIcon_success:
  "Create_error env (Join env (TempDir env) (''notify_icon_'' @ nType @ ''.png'')) = None \<Longrightarrow>
   Encode_error env (Join env (TempDir env) (''notify_icon_'' @ nType @ ''.png'')) = None \<Longrightarrow>
   createIcon env nType =
     (Inr (Join env (TempDir env) (''notify_icon_'' @ nType @ ''.png'')),
      [Create (Join env (TempDir env) (''notify_icon_'' @ nType @ ''.png'')),
       Encode (Join env (TempDir env) (''notify_icon_'' @ nType @ ''.png'')) (createIcon_image nType),
       Close (Join env (TempDir env) (''notify_icon_'' @ nType @ ''.png''))])"
  by (simp add: createIcon_def Let_def)

lemma build_toast_fields:
  "Icon (build_toast n p) = p"
  "Audio (build_toast n p) =
     (if Type n = ''success'' \<or> Type n = ''error'' \<or> Type n = ''warning'' then Default else Silent)"
  "Duration (build_toast n p) = (if AutoClose n then Short else Long)"
  "toast_Title (build_toast n p) = Title n"
  "toast_Message (build_toast n p) = Message n"
  "build_toast (n\<lparr>Timeout := t\<rparr>) p = build_toast n p"
  by (simp_all add: build_toast_def Let_def)

lemma displayNotification_events:
  "displayNotification env n =
     (let p = icon_or_empty (fst (getIconPath env (Type n)));
          t = build_toast n p
      in (Push_error env t,
          snd (getIconPath env (Type n)) @ Push t #
          (case Push_error env t of
             Some err \<Rightarrow> []
           | None \<Rightarrow> Sleep_ms 500 # (if p \<noteq> '''' then [Remove p (Remove_error env p)] else []))))"
  by (simp add: displayNotification_def icon_or_empty_def Let_def split: prod.split option.split)

lemma displayNotification_pushed:
  "pushed (snd (displayNotification env n)) =
     [build_toast n (icon_or_empty (fst (getIconPath env (Type n))))]"
  by (simp add: displayNotification_events Let_def pushed_append getIconPath_events split: option.split)

lemma displayNotification_result:
  "fst (displayNotification env n) =
     Push_error env (build_toast n (icon_or_empty (fst (getIconPath env (Type n)))))"
  by (simp add: displayNotification_events Let_def)

lemma isValidType_validTypes:
  "isValidType nt validTypes \<longleftrightarrow> nt \<in> {''success'', ''error'', ''info'', ''warning''}"
  by (auto simp add: validTypes_def)

lemma iconData_colors:
  "Color (case iconData nType of Some d \<Rightarrow> d | None \<Rightarrow> iconData_at ''info'') =
     (if nType = ''success'' then RGBA 46 204 113 255
      else if nType = ''error'' then RGBA 231 76 60 255
      else if nType = ''warning'' then RGBA 241 196 15 255
      else RGBA 52 152 219 255)"
  by (simp add: iconData_def iconData_at_def)

section \<open>Lemmas about \<open>Atoi\<close>\<close>

lemma digits_value_Some_iff:
  "(\<exists>m. digits_value n ds = Some m) \<longleftrightarrow> list_all is_digit ds"
  by (induction ds arbitrary: n) auto

lemma Atoi_range: "Atoi s = Some n \<Longrightarrow> - (2 ^ 63) \<le> n \<and> n < 2 ^ 63"
  by (auto simp add: Atoi_def Let_def split: list.splits option.splits if_splits)

lemma Atoi_examples:
  "map Atoi [''12'', ''+7'', ''-0'', ''007'', ''9223372036854775807'', ''-9223372036854775808''] =
     [Some 12, Some 7, Some 0, Some 7, Some 9223372036854775807, Some (- 9223372036854775808)]"
  "map Atoi ['''', ''-'', ''+'', ''abc'', ''1_0'', '' 1'', ''1.5'', ''0x10'', ''1e3'',
             ''9223372036854775808'', ''-9223372036854775809''] =
     replicate 11 None"
  by code_simp+

section \<open>Lemmas about the values of a flag\<close>





















lemma timeout_values_example:
  "flag_values ''timeout'' [''msg'', ''--timeout=10'', ''-timeout'', ''1x''] = [''10'', ''1x'']"
  "integer_text ''10'' = Some 10" "integer_text ''1x'' = None" "integer_text ''abc'' = None"
  "integer_text ''-3'' = Some (- 3)"
  by code_simp+

section \<open>Runs on concrete inputs\<close>

lemma parse_examples:
  "parse_args [''--type'', ''bogus'', ''hi''] =
     Inr (Parsed (defaults\<lparr>notificationType := ''bogus'', message := ''hi''\<rparr>))"
  "parse_args [''--type'', ''bogus''] = Inr (Parsed (defaults\<lparr>notificationType := ''bogus''\<rparr>))"
  "parse_args [''hi'', ''--type'', ''Success''] =
     Inr (Parsed (defaults\<lparr>message := ''hi'', notificationType := ''Success''\<rparr>))"
  "parse_args [''first'', ''--type'', ''error'', ''second''] =
     Inr (Parsed (defaults\<lparr>message := ''second'', notificationType := ''error''\<rparr>))"
  "parse_args [''msg'', ''--timeout'', ''abc''] = Inr (Parsed (defaults\<lparr>message := ''msg''\<rparr>))"
  "parse_args [''msg'', ''--timeout=10'', ''-timeout'', ''1x''] =
     Inr (Parsed (defaults\<lparr>message := ''msg'', timeout := 10\<rparr>))"
  "parse_args [''msg'', ''--autoclose'', ''false''] =
     Inr (Parsed (defaults\<lparr>message := ''msg'', autoClose := False\<rparr>))"
  "parse_args [''msg'', ''--autoclose=1''] =
     Inr (Parsed (defaults\<lparr>message := ''msg'', autoClose := False\<rparr>))"
  "parse_args [''msg'', ''--autoclose=no'', ''-autoclose'', ''TRUE''] =
     Inr (Parsed (defaults\<lparr>message := ''msg'', autoClose := True\<rparr>))"
  "parse_args [''msg'', ''--type'', ''--help''] =
     Inr (Parsed (defaults\<lparr>message := ''msg'', notificationType := ''--help''\<rparr>))"
  "parse_args [''msg'', ''--help'', ''--type''] = Inr HelpRequested"
  by code_simp+

lemma main_missing_message_first:
  "main env [''--type'', ''bogus''] =
     ([Print (''Message is required as a positional argument'' @ newline),
       Print (help_text @ newline)], 1)"
  by (simp add: main_def parse_examples(2) showHelp_def defaults_def)

lemma main_type_is_case_sensitive:
  "main env [''hi'', ''--type'', ''Success''] =
     ([Print (''Invalid notification type: Success. Valid types are: success, error, info, warning'' @
              newline)], 1)"
  by (simp add: main_def parse_examples(3) defaults_def isValidType_validTypes)

lemma getIconPath_env_no_icon:
  "getIconPath env_no_icon ''info'' = (Inl ''access denied'', [Create ''/tmp/notify_icon_info.png''])"
  by (simp add: getIconPath_createIcon createIcon_def env_no_icon_def env_ok_def env_push_fails_def
      Let_def)

lemma getIconPath_env_push_fails:
  "getIconPath env_push_fails ''success'' =
     (Inr ''/tmp/notify_icon_success.png'',
      [Create ''/tmp/notify_icon_success.png'',
       Encode ''/tmp/notify_icon_success.png'' (createIcon_image ''success''),
       Close ''/tmp/notify_icon_success.png''])"
  using createIcon_success[of env_push_fails "''success''"]
  by (simp add: getIconPath_createIcon env_push_fails_def)

lemma getIconPath_env_remove_fails:
  "getIconPath env_remove_fails ''success'' =
     (Inr ''/tmp/notify_icon_success.png'',
      [Create ''/tmp/notify_icon_success.png'',
       Encode ''/tmp/notify_icon_success.png'' (createIcon_image ''success''),
       Close ''/tmp/notify_icon_success.png''])"
  using createIcon_success[of env_remove_fails "''success''"]
  by (simp add: getIconPath_createIcon env_remove_fails_def env_ok_def env_push_fails_def)

section \<open>The claims\<close>

text \<open>
  C1, as the specification states it, does not hold. The vector \<open>first second\<close> has two
  tokens that start with no dash and are the value of no flag; the loop assigns each of
  them to \<open>message\<close> in turn, so the message is \<open>second\<close>, not the first of them.
\<close>

theorem first_positional_not_kept:
  "2 \<le> length (positionals [''first'', ''second'']) \<and>
   hd (positionals [''first'', ''second'']) = ''first'' \<and>
   parse_args [''first'', ''second''] = Inr (Parsed (defaults\<lparr>message := ''second''\<rparr>)) \<and>
   Message (make_Notification (defaults\<lparr>message := ''second''\<rparr>)) \<noteq>
     hd (positionals [''first'', ''second''])"
  by (simp add: positionals_def takes_value_def HasPrefix_def parse_args_def
      parse_loop.simps parse_step_def index_def defaults_def make_Notification_def)

text \<open>
  C1, amended. For every argument vector with two or more tokens that do not start with
  a dash and are not consumed as flag values, if the parser comes to its end (no help
  was asked for), the message of the parse and of the \<open>Notification\<close> built from it is
  the last such token: the last match wins, the earlier ones are overwritten.
\<close>

theorem last_positional_is_message:
  assumes "2 \<le> length (positionals args)" and "parse_args args = Inr (Parsed st)"
  shows "message st = last (positionals args) \<and>
         Message (make_Notification st) = last (positionals args)"
proof -
  from assms(1) have "positionals args \<noteq> []" by auto
  with parse_loop_message[of args 0 defaults st] assms(2) show ?thesis
    by (simp add: parse_args_def make_Notification_def Let_def)
qed

theorem last_positional_is_message_witness:
  "Message (make_Notification (defaults\<lparr>message := ''second'', notificationType := ''error''\<rparr>)) =
     last (positionals [''first'', ''--type'', ''error'', ''second'']) \<and>
   last (positionals [''first'', ''--type'', ''error'', ''second'']) = ''second''"
proof -
  have n: "2 \<le> length (positionals [''first'', ''--type'', ''error'', ''second''])"
    by (simp add: positionals_def takes_value_def HasPrefix_def)
  from last_positional_is_message[OF n parse_examples(4)] show ?thesis
    by (simp add: positionals_def takes_value_def HasPrefix_def)
qed

text \<open>
  C2. For every type string, the raster \<open>createIcon\<close> draws is 64 by 64 pixels of four
  bytes; every pixel whose squared distance from (32, 32) is at most 28 squared has the
  opaque colour of the type: (46, 204, 113, 255) for success, (231, 76, 60, 255) for
  error, (241, 196, 15, 255) for warning, and (52, 152, 219, 255) for info and for
  every string that is none of the four; every other pixel is (0, 0, 0, 0), with alpha
  0. Whatever the type, \<open>createIcon\<close> fails only when the file cannot be created or
  written: if both succeed it returns the path and has encoded that raster.
\<close>

theorem createIcon_image_pixels:
  assumes "0 \<le> x" "x < 64" "0 \<le> y" "y < 64"
  shows "RGBAAt (createIcon_image nType) x y =
           (if (x - 32)\<^sup>2 + (y - 32)\<^sup>2 \<le> 28\<^sup>2 then
              (if nType = ''success'' then RGBA 46 204 113 255
               else if nType = ''error'' then RGBA 231 76 60 255
               else if nType = ''warning'' then RGBA 241 196 15 255
               else RGBA 52 152 219 255)
            else RGBA 0 0 0 0) \<and>
         Rect_Min (createIcon_image nType) = (0, 0) \<and>
         Rect_Max (createIcon_image nType) = (64, 64) \<and>
         Stride (createIcon_image nType) = 256 \<and>
         length (Pix (createIcon_image nType)) = 64 * 64 * 4 \<and>
         (let p = Join env (TempDir env) (''notify_icon_'' @ nType @ ''.png'')
          in Create_error env p = None \<and> Encode_error env p = None \<longrightarrow>
             createIcon env nType =
               (Inr p, [Create p, Encode p (createIcon_image nType), Close p]))"
proof -
  define col where "col = Color (case iconData nType of Some d \<Rightarrow> d | None \<Rightarrow> iconData_at ''info'')"
  have img: "createIcon_image nType = createIcon_loop_y col 64 32 28 0 (NewRGBA (0, 0) (64, 64))"
    by (simp add: createIcon_image_def Let_def col_def)
  have sq: "square_image (NewRGBA (0, 0) (64, 64)) 64"
    by (rule square_image_NewRGBA) simp
  from loop_y_spec[OF sq, of 0 col 32 28]
  have sq': "square_image (createIcon_image nType) 64"
    and px: "RGBAAt (createIcon_image nType) x y = circle_pixel col 32 28 x y"
    using assms unfolding img by simp_all
  have "circle_pixel col 32 28 x y =
          (if (x - 32)\<^sup>2 + (y - 32)\<^sup>2 \<le> 28\<^sup>2 then col else RGBA 0 0 0 0)"
    by (simp add: circle_pixel_def power2_eq_square)
  then show ?thesis
    using px sq' iconData_colors[of nType] createIcon_success[of env nType]
    by (simp add: col_def square_image_def Let_def)
qed

theorem createIcon_image_pixels_witness:
  "RGBAAt (createIcon_image ''warning'') 32 4 = RGBA 241 196 15 255 \<and>
   RGBAAt (createIcon_image ''warning'') 32 3 = RGBA 0 0 0 0 \<and>
   RGBAAt (createIcon_image ''bogus'') 10 40 = RGBA 52 152 219 255"
  using createIcon_image_pixels[of 32 4 "''warning''"] createIcon_image_pixels[of 32 3 "''warning''"]
    createIcon_image_pixels[of 10 40 "''bogus''"]
  by simp





text \<open>
  C5. For every request with a valid type, \<open>displayNotification\<close> gives one notification
  to the notification service, and its audio cue depends on the type alone: silent for
  info, the default sound for success, error and warning.
\<close>

theorem audio_from_category:
  assumes "Type n \<in> {''success'', ''error'', ''info'', ''warning''}"
  shows "map Audio (pushed (snd (displayNotification env n))) =
           [if Type n = ''info'' then Silent else Default]"
  using assms by (auto simp add: displayNotification_pushed build_toast_fields)

theorem audio_from_category_witness:
  "map Audio (pushed (snd (displayNotification env_ok build_complete))) = [Default]"
  using audio_from_category[of build_complete env_ok]
  by (simp add: build_complete_def)

text \<open>
  C6. For every request, the one notification \<open>displayNotification\<close> gives to the
  notification service has the long duration when \<open>AutoClose\<close> is false and the short
  one otherwise, and the value of \<open>Timeout\<close> changes nothing of what
  \<open>displayNotification\<close> does or returns.
\<close>

theorem duration_from_autoClose:
  "map Duration (pushed (snd (displayNotification env n))) =
     [if AutoClose n then Short else Long] \<and>
   displayNotification env (n\<lparr>Timeout := t\<rparr>) = displayNotification env n"
proof -
  have "displayNotification env (n\<lparr>Timeout := t\<rparr>) = displayNotification env n"
    by (simp add: displayNotification_def build_toast_fields(6))
  then show ?thesis
    by (simp add: displayNotification_pushed build_toast_fields(3))
qed

theorem duration_from_autoClose_witness:
  "map Duration (pushed (snd (displayNotification env_ok (build_complete\<lparr>AutoClose := False\<rparr>)))) =
     [Long] \<and>
   displayNotification env_ok (build_complete\<lparr>AutoClose := False, Timeout := 10\<rparr>) =
     displayNotification env_ok (build_complete\<lparr>AutoClose := False\<rparr>)"
  using duration_from_autoClose[of env_ok "build_complete\<lparr>AutoClose := False\<rparr>" 10]
  by simp

text \<open>
  C7. For every argument vector that the parser reads to its end (no help was asked
  for): if the message is empty, \<open>main\<close> prints that a message is required and the help
  text, and exits with code 1; if the message is not empty and the type is none of
  success, error, info, warning, it prints one line that names the type given and lists
  the four valid ones, and exits with code 1. In both cases the exit code is not zero,
  something is printed and no notification is sent. (The message is checked first:
  with an empty message the first error is the one printed, whatever the type.)
\<close>

theorem main_rejects_invalid_input:
  assumes "parse_args args = Inr (Parsed st)"
  shows "(message st = '''' \<longrightarrow>
            main env args =
              ([Print (''Message is required as a positional argument'' @ newline),
                Print (help_text @ newline)], 1)) \<and>
         (message st \<noteq> '''' \<and>
          notificationType st \<notin> {''success'', ''error'', ''info'', ''warning''} \<longrightarrow>
            main env args =
              ([Print (''Invalid notification type: '' @ notificationType st @
                       ''. Valid types are: success, error, info, warning'' @ newline)], 1)) \<and>
         (message st = '''' \<or>
          notificationType st \<notin> {''success'', ''error'', ''info'', ''warning''} \<longrightarrow>
            snd (main env args) = 1 \<and> pushed (fst (main env args)) = [] \<and>
            fst (main env args) \<noteq> [])"
  using assms
  by (simp add: main_def showHelp_def isValidType_validTypes)

theorem main_rejects_invalid_input_witness:
  "main env_ok [''--type'', ''bogus'', ''hi''] =
     ([Print (''Invalid notification type: bogus. Valid types are: success, error, info, warning'' @
              newline)], 1)"
  using main_rejects_invalid_input[OF parse_examples(1), of env_ok]
  by simp

text \<open>
  C8, as the specification states it, does not hold. In a world where the icon file is
  written and the notification service fails, \<open>displayNotification\<close> gives the path of
  the file to the service, returns the error of the service, and never calls
  \<open>os.Remove\<close>: it returns before the clean-up.
\<close>

theorem icon_kept_when_push_fails:
  "fst (getIconPath env_push_fails (Type build_complete)) = Inr ''/tmp/notify_icon_success.png'' \<and>
   map Icon (pushed (snd (displayNotification env_push_fails build_complete))) =
     [''/tmp/notify_icon_success.png''] \<and>
   fst (displayNotification env_push_fails build_complete) = Some ''toast failed'' \<and>
   removed (snd (displayNotification env_push_fails build_complete)) = []"
proof -
  have t: "Type build_complete = ''success''" by (simp add: build_complete_def)
  have f: "Push_error env_push_fails t = Some ''toast failed''" for t
    by (simp add: env_push_fails_def)
  show ?thesis
    by (simp add: displayNotification_events Let_def t getIconPath_env_push_fails
      icon_or_empty_def build_toast_fields(1) removed_append pushed_append f)
qed

text \<open>
  C8, amended. For every invocation in which the icon file was made (\<open>getIconPath\<close>
  returned its path, which \<open>filepath.Join\<close> never leaves empty) and the one call of the
  notification service that is given this path returns without error,
  \<open>displayNotification\<close> then waits 500 ms and calls \<open>os.Remove\<close> on the path as its last
  action; it returns no error whatever \<open>os.Remove\<close> answers.
\<close>

theorem icon_removed_after_push:
  assumes "fst (getIconPath env (Type n)) = Inr p" and "p \<noteq> ''''"
    and "Push_error env (build_toast n p) = None"
  shows "snd (displayNotification env n) =
           snd (getIconPath env (Type n)) @
           [Push (build_toast n p), Sleep_ms 500, Remove p (Remove_error env p)] \<and>
         Icon (build_toast n p) = p \<and>
         removed (snd (displayNotification env n)) = [p] \<and>
         fst (displayNotification env n) = None"
  using assms getIconPath_events[of env "Type n"]
  by (simp add: displayNotification_events Let_def icon_or_empty_def build_toast_fields(1)
      removed_append)

theorem icon_removed_after_push_witness:
  "snd (displayNotification env_remove_fails build_complete) =
     [Create ''/tmp/notify_icon_success.png'',
      Encode ''/tmp/notify_icon_success.png'' (createIcon_image ''success''),
      Close ''/tmp/notify_icon_success.png'',
      Push (build_toast build_complete ''/tmp/notify_icon_success.png''),
      Sleep_ms 500,
      Remove ''/tmp/notify_icon_success.png'' (Some ''access denied'')] \<and>
   fst (displayNotification env_remove_fails build_complete) = None"
proof -
  have t: "Type build_complete = ''success''" by (simp add: build_complete_def)
  have h: "fst (getIconPath env_remove_fails (Type build_complete)) =
             Inr ''/tmp/notify_icon_success.png''"
    by (simp add: t getIconPath_env_remove_fails)
  have ne: "''/tmp/notify_icon_success.png'' \<noteq> ''''" by simp
  have ok: "Push_error env_remove_fails (build_toast build_complete ''/tmp/notify_icon_success.png'') = None"
    by (simp add: env_remove_fails_def env_ok_def)
  have r: "Remove_error env_remove_fails ''/tmp/notify_icon_success.png'' = Some ''access denied''"
    by (simp add: env_remove_fails_def)
  from icon_removed_after_push[OF h ne ok] show ?thesis
    by (simp add: t getIconPath_env_remove_fails r)
qed

text \<open>
  C9. For every request, if \<open>getIconPath\<close> fails, \<open>displayNotification\<close> still gives one
  notification to the notification service, with the empty icon path; what it returns
  is what the service returned for that notification, so the failure of the icon alone
  is no error; and no file is removed.
\<close>

theorem icon_failure_not_fatal:
  assumes "fst (getIconPath env (Type n)) = Inl err"
  shows "map Icon (pushed (snd (displayNotification env n))) = [''''] \<and>
         fst (displayNotification env n) = Push_error env (build_toast n '''') \<and>
         pushed (snd (displayNotification env n)) = [build_toast n ''''] \<and>
         removed (snd (displayNotification env n)) = []"
proof -
  have p: "icon_or_empty (fst (getIconPath env (Type n))) = ''''"
    using assms by (simp add: icon_or_empty_def)
  have "removed (snd (displayNotification env n)) = []"
    using getIconPath_events[of env "Type n"]
    by (simp add: displayNotification_events Let_def p removed_append split: option.split)
  then show ?thesis
    by (simp add: displayNotification_pushed displayNotification_result p build_toast_fields(1))
qed

theorem icon_failure_not_fatal_witness:
  "map Icon (pushed (snd (displayNotification env_no_icon (build_complete\<lparr>Type := ''info''\<rparr>)))) = [''''] \<and>
   fst (displayNotification env_no_icon (build_complete\<lparr>Type := ''info''\<rparr>)) = None"
proof -
  have h: "fst (getIconPath env_no_icon (Type (build_complete\<lparr>Type := ''info''\<rparr>))) =
             Inl ''access denied''"
    by (simp add: getIconPath_env_no_icon)
  have "Push_error env_no_icon t = None" for t
    by (simp add: env_no_icon_def env_ok_def)
  with icon_failure_not_fatal[OF h] show ?thesis by (simp add: build_toast_fields(1))
qed

text \<open>
  C10. The argument parser is total and in bounds for every argument vector: the parse
  loop ends (\<open>parse_loop\<close> is a total function, by its termination proof) with a result
  and never reads \<open>args\<close> past its end, from the start and from any index and state;
  and when a flag that takes a value (\<open>--type\<close>, \<open>--title\<close>, \<open>--timeout\<close>,
  \<open>--autoclose\<close>, or one of them with a single dash) is the last token, the step skips
  it and the loop ends with every variable as it was.
\<close>

theorem parse_loop_total_in_bounds:
  "(\<exists>r. parse_args args = Inr r) \<and>
   (\<exists>r. parse_loop args i st = Inr r) \<and>
   (i < length args \<longrightarrow> (\<exists>r. parse_step args i st = Inr r)) \<and>
   (i + 1 = length args \<longrightarrow>
    args ! i \<in> {''--type'', ''-type'', ''--title'', ''-title'',
                ''--timeout'', ''-timeout'', ''--autoclose'', ''-autoclose''} \<longrightarrow>
    parse_step args i st = Inr (Continue (i + 1) st) \<and>
    parse_loop args i st = Inr (Parsed st))"
proof -
  have c: "parse_step args i st = Inr (Continue (i + 1) st) \<and>
           parse_loop args i st = Inr (Parsed st)"
    if last: "i + 1 = length args" and flag: "takes_value (args ! i)"
  proof -
    from last have i: "i < length args" and n: "\<not> i + 1 < length args" by simp_all
    have step: "parse_step args i st = Inr (Continue (i + 1) st)"
      using step_flag_last[OF i n flag] .
    moreover have "parse_loop args (i + 1) st = Inr (Parsed st)"
      using last by (simp add: parse_loop_end)
    ultimately show ?thesis using parse_loop_continue[OF i step] by simp
  qed
  show ?thesis
    using parse_loop_no_panic[of args 0 defaults] parse_loop_no_panic[of args i st]
      parse_step_no_panic[of i args st] c
    by (simp add: parse_args_def takes_value_def)
qed

theorem parse_loop_total_in_bounds_witness:
  "parse_loop [''hello'', ''--type''] 1 (defaults\<lparr>message := ''hello''\<rparr>) =
     Inr (Parsed (defaults\<lparr>message := ''hello''\<rparr>))"
  using parse_loop_total_in_bounds[of "[''hello'', ''--type'']" 1 "defaults\<lparr>message := ''hello''\<rparr>"]
  by simp

end
